theory Spec2Isabelle
  imports Main
begin

section \<open>Credential resolution and client caching of fs-aws, and the v3 adapter's constants\<close>

text \<open>
  A shallow embedding of \<^verbatim>\<open>packages/fs-aws/src/credentials.ts\<close> and of the constants of
  \<^verbatim>\<open>packages/source-aws-v3/src/s3.v3.ts\<close>.

  Conventions of the embedding:
  \<^item> a JavaScript string is a \<open>string\<close>; a URL is the record of its \<open>href\<close>, which is also
    what \<^verbatim>\<open>'' + loc\<close> and \<^verbatim>\<open>loc.toString()\<close> give;
  \<^item> a thrown error is the \<open>Inl\<close> of a result; \<^verbatim>\<open>null\<close> of a nullable result is \<open>None\<close>;
  \<^item> a promise is modelled by the outcome it settles to, so the memo slot
    \<^verbatim>\<open>_config?: Promise<..>\<close> is an optional outcome; when the callers run is modelled
    separately, by the schedule of section \<open>Interleaved callers\<close>; \<^verbatim>\<open>fs.read\<close> returns
    a promise, as its interface declares: a failed read is a rejection, not a synchronous
    throw;
  \<^item> calls into collaborators (\<^verbatim>\<open>fs.read\<close>, the creation callback, \<^verbatim>\<open>new FsAwsS3\<close>,
    \<^verbatim>\<open>Date.now\<close>, \<^verbatim>\<open>Math.random\<close>) are recorded in, or answered by, the record \<open>world\<close>
    that every operation threads through.
\<close>

subsection \<open>Data\<close>

record URL =
  href :: string

text \<open>
  Modelled from the spec: the type \<^verbatim>\<open>AwsCredentialConfig\<close> is declared in \<^verbatim>\<open>types.ts\<close>, which
  is not among the sources. Its fields are those the code reads (\<^verbatim>\<open>prefix\<close>, \<^verbatim>\<open>roleArn\<close>,
  \<^verbatim>\<open>externalId\<close>, \<^verbatim>\<open>roleSessionDuration\<close>, \<^verbatim>\<open>type\<close>), typed as the spec's data model and
  wire format type them: two strings, an optional string, an optional integer number of
  seconds, and the optional tag.
\<close>

record AwsCredentialConfig =
  prefix :: string
  roleArn :: string
  externalId :: "string option"
  roleSessionDuration :: "int option"
  type :: "string option"

text \<open>
  Modelled from the spec: the type \<^verbatim>\<open>AwsCredentialProvider\<close> of a configuration document
  (also from \<^verbatim>\<open>types.ts\<close>): the version \<^verbatim>\<open>v\<close> and the list \<^verbatim>\<open>prefixes\<close>.
\<close>

record AwsCredentialProvider =
  v :: int
  prefixes :: "AwsCredentialConfig list"

text \<open>
  What \<^verbatim>\<open>JSON.parse\<close> hands to \<^verbatim>\<open>validateConfig\<close> is untyped. The values the validation
  tells apart: a property read gives \<^verbatim>\<open>undefined\<close> (property absent, or read off a
  primitive), or a JSON value. An array holds elements of the declared element type
  \<^verbatim>\<open>AwsCredentialConfig\<close>: the code never inspects an element before using it at that type.
  Numbers are modelled by the integers; \<^verbatim>\<open>cfg.v !== 2\<close> holds of every value but the number 2.
\<close>

datatype jsvalue =
    JUndefined
  | JNull
  | JBool bool
  | JNumber int
  | JString string
  | JObject
  | JArray "AwsCredentialConfig list"

text \<open>
  The parsed document: \<^verbatim>\<open>null\<close>, or a value whose properties \<^verbatim>\<open>v\<close> and \<^verbatim>\<open>prefixes\<close> read as
  given.
\<close>

datatype parsed =
    ParsedNull
  | ParsedValue (read_v: jsvalue) (read_prefixes: jsvalue)

text \<open>
  The content of a file: text that \<^verbatim>\<open>JSON.parse\<close> rejects, or the text of a JSON value.
\<close>

datatype buffer =
    Malformed string
  | JsonText parsed

text \<open>
  Errors: whatever \<^verbatim>\<open>fs.read\<close> rejects with (opaque to this code), the \<^verbatim>\<open>SyntaxError\<close> of
  \<^verbatim>\<open>JSON.parse\<close>, and \<^verbatim>\<open>new Error(message)\<close> of \<^verbatim>\<open>validateConfig\<close>.
\<close>

datatype error =
    ReadFailure string
  | SyntaxError string
  | Error string

type_synonym FileSystem = "URL \<Rightarrow> error + buffer"

record FsConfigFetcher =
  loc :: URL
  fs :: FileSystem
  memo_config :: "(error + AwsCredentialProvider) option"

datatype source =
    Inline AwsCredentialConfig
  | Fetcher FsConfigFetcher

text \<open>
  A constructed client (\<^verbatim>\<open>new FsAwsS3(new S3Client(..))\<close>): the parameters it was built
  with, and \<open>oid\<close>, the identity of the object (two constructions give two objects).
\<close>

record FsAwsS3 =
  oid :: nat
  RoleArn :: string
  ExternalId :: "string option"
  RoleSessionName :: string
  DurationSeconds :: "int option"

text \<open>
  The surroundings: the log of \<^verbatim>\<open>fs.read\<close> calls, the number of clients constructed so
  far, the log of calls of the creation callback, and the answers of \<^verbatim>\<open>Date.now()\<close> and of
  \<^verbatim>\<open>Math.random().toString(32).slice(2)\<close> at the k-th construction.
\<close>

record world =
  reads :: "URL list"
  constructed :: nat
  observed :: "(AwsCredentialConfig \<times> FsAwsS3) list"
  now :: "nat \<Rightarrow> int"
  random :: "nat \<Rightarrow> string"

text \<open>
  The provider. \<open>onFileSystemCreated\<close> says whether the optional callback is set; its calls
  are recorded in \<open>observed\<close>.
\<close>

record AwsS3CredentialProvider =
  defaultSessionDuration :: "int option"
  configs :: "source list"
  fileSystems :: "string \<rightharpoonup> FsAwsS3"
  version :: string
  onFileSystemCreated :: bool

subsection \<open>Strings\<close>

text \<open>\<^verbatim>\<open>s.startsWith(p)\<close>: the first \<open>length p\<close> characters of \<open>s\<close> are \<open>p\<close>.\<close>

definition startsWith :: "string \<Rightarrow> string \<Rightarrow> bool" where
  "startsWith s p \<longleftrightarrow> take (length p) s = p"

text \<open>A number inside a template literal: the decimal digits of an integer.\<close>

function digits :: "nat \<Rightarrow> string" where
  "digits n = (if n < 10 then [''0123456789'' ! n] else digits (n div 10) @ [''0123456789'' ! (n mod 10)])"
  by pat_completeness auto
termination
  by (relation "measure id") auto

definition Number_toString :: "int \<Rightarrow> string" where
  "Number_toString i = (if i < 0 then ''-'' @ digits (nat (- i)) else digits (nat i))"

subsection \<open>The configuration document\<close>

text \<open>\<^verbatim>\<open>validateConfig\<close>, lines 12 to 18.\<close>

definition validateConfig :: "parsed \<Rightarrow> URL \<Rightarrow> error + AwsCredentialProvider" where
  "validateConfig cfg l =
     (case cfg of
        ParsedNull \<Rightarrow> Inl (Error (''Unknown configuration from:'' @ href l))
      | ParsedValue ver pre \<Rightarrow>
          if ver \<noteq> JNumber 2 then Inl (Error (''Configuration is not v2 from:'' @ href l))
          else (case pre of
                  JArray entries \<Rightarrow> Inr \<lparr>v = 2, prefixes = entries\<rparr>
                | _ \<Rightarrow> Inl (Error (''Configuration prefixes invalid from:'' @ href l))))"

definition JSON_parse :: "buffer \<Rightarrow> error + parsed" where
  "JSON_parse f = (case f of Malformed s \<Rightarrow> Inl (SyntaxError s) | JsonText j \<Rightarrow> Inr j)"

text \<open>
  The promise chain of the getter, lines 33 to 36: read, then parse, then validate; a
  rejection skips the later stages.
\<close>

definition fetch :: "FileSystem \<Rightarrow> URL \<Rightarrow> error + AwsCredentialProvider" where
  "fetch r l =
     (case r l of
        Inl e \<Rightarrow> Inl e
      | Inr f \<Rightarrow> (case JSON_parse f of Inl e \<Rightarrow> Inl e | Inr cfg \<Rightarrow> validateConfig cfg l))"

text \<open>
  \<^verbatim>\<open>get config()\<close>, lines 31 to 39: the memoized promise if there is one; otherwise the read
  is issued, and the promise stored and returned.
\<close>

definition config ::
  "FsConfigFetcher \<Rightarrow> world \<Rightarrow> (error + AwsCredentialProvider) \<times> FsConfigFetcher \<times> world" where
  "config f w =
     (case memo_config f of
        Some p \<Rightarrow> (p, f, w)
      | None \<Rightarrow>
          (let p = fetch (fs f) (loc f)
           in (p, f\<lparr>memo_config := Some p\<rparr>, w\<lparr>reads := reads w @ [loc f]\<rparr>)))"

text \<open>The loop of lines 44 to 47 over the entries of a document.\<close>

fun scan :: "string \<Rightarrow> AwsCredentialConfig list \<Rightarrow> AwsCredentialConfig option" where
  "scan h [] = None"
| "scan h (credentials # rest) =
     (if startsWith h (prefix credentials) then Some credentials else scan h rest)"

text \<open>What a caller gets once the promise it awaits has settled (lines 43 to 47).\<close>

definition answer ::
  "(error + AwsCredentialProvider) \<Rightarrow> URL \<Rightarrow> error + AwsCredentialConfig option" where
  "answer p u = (case p of Inl e \<Rightarrow> Inl e | Inr cfg \<Rightarrow> Inr (scan (href u) (prefixes cfg)))"

text \<open>\<^verbatim>\<open>FsConfigFetcher.findCredentials\<close>, lines 41 to 48, run to its end.\<close>

definition FsConfigFetcher_findCredentials ::
  "URL \<Rightarrow> FsConfigFetcher \<Rightarrow> world \<Rightarrow> (error + AwsCredentialConfig option) \<times> FsConfigFetcher \<times> world" where
  "FsConfigFetcher_findCredentials u f w =
     (case config f w of (p, f', w') \<Rightarrow> (answer p u, f', w'))"

subsection \<open>The provider\<close>

text \<open>\<^verbatim>\<open>register\<close> and \<^verbatim>\<open>registerConfig\<close>, lines 102 to 104 and 118 to 120.\<close>

definition register :: "AwsCredentialConfig \<Rightarrow> AwsS3CredentialProvider \<Rightarrow> AwsS3CredentialProvider" where
  "register f p = p\<lparr>configs := configs p @ [Inline (f\<lparr>type := Some ''s3''\<rparr>)]\<rparr>"

definition registerConfig :: "URL \<Rightarrow> FileSystem \<Rightarrow> AwsS3CredentialProvider \<Rightarrow> AwsS3CredentialProvider" where
  "registerConfig l r p =
     p\<lparr>configs := configs p @ [Fetcher \<lparr>loc = l, fs = r, memo_config = None\<rparr>]\<rparr>"

text \<open>
  The loop of \<^verbatim>\<open>findCredentials\<close>, lines 125 to 133, over the sources still to visit. It
  returns the sources as the visit leaves them (a visited loader has its memo set).
\<close>

fun sources_loop ::
  "URL \<Rightarrow> source list \<Rightarrow> world \<Rightarrow> (error + AwsCredentialConfig option) \<times> source list \<times> world" where
  "sources_loop u [] w = (Inr None, [], w)"
| "sources_loop u (Fetcher f # rest) w =
     (case FsConfigFetcher_findCredentials u f w of
        (Inl e, f', w') \<Rightarrow> (Inl e, Fetcher f' # rest, w')
      | (Inr (Some credentials), f', w') \<Rightarrow> (Inr (Some credentials), Fetcher f' # rest, w')
      | (Inr None, f', w') \<Rightarrow>
          (case sources_loop u rest w' of (r, rest', w'') \<Rightarrow> (r, Fetcher f' # rest', w'')))"
| "sources_loop u (Inline cfg # rest) w =
     (if startsWith (href u) (prefix cfg) then (Inr (Some cfg), Inline cfg # rest, w)
      else (case sources_loop u rest w of (r, rest', w') \<Rightarrow> (r, Inline cfg # rest', w')))"

definition findCredentials ::
  "URL \<Rightarrow> AwsS3CredentialProvider \<Rightarrow> world \<Rightarrow>
     (error + AwsCredentialConfig option) \<times> AwsS3CredentialProvider \<times> world" where
  "findCredentials u p w =
     (case sources_loop u (configs p) w of (r, cs', w') \<Rightarrow> (r, p\<lparr>configs := cs'\<rparr>, w'))"

text \<open>\<^verbatim>\<open>createRoleSessionName\<close> and \<^verbatim>\<open>createFileSystem\<close>, lines 65 to 85.\<close>

definition createRoleSessionName :: "AwsS3CredentialProvider \<Rightarrow> world \<Rightarrow> string" where
  "createRoleSessionName p w =
     ''fsa-'' @ version p @ ''-'' @ Number_toString (now w (constructed w)) @ ''-''
       @ random w (constructed w)"

definition createFileSystem ::
  "AwsS3CredentialProvider \<Rightarrow> AwsCredentialConfig \<Rightarrow> world \<Rightarrow> FsAwsS3 \<times> world" where
  "createFileSystem p cs w =
     (\<lparr>oid = constructed w,
       RoleArn = roleArn cs,
       ExternalId = externalId cs,
       RoleSessionName = createRoleSessionName p w,
       DurationSeconds =
         (case roleSessionDuration cs of Some d \<Rightarrow> Some d | None \<Rightarrow> defaultSessionDuration p)\<rparr>,
      w\<lparr>constructed := Suc (constructed w)\<rparr>)"

text \<open>
  The template literal of line 140. An absent (\<^verbatim>\<open>undefined\<close>) field prints as the text
  \<^verbatim>\<open>undefined\<close>.
\<close>

definition cacheKey :: "AwsCredentialConfig \<Rightarrow> string" where
  "cacheKey cs =
     roleArn cs @ ''__''
       @ (case externalId cs of None \<Rightarrow> ''undefined'' | Some e \<Rightarrow> e) @ ''__''
       @ (case roleSessionDuration cs of None \<Rightarrow> ''undefined'' | Some d \<Rightarrow> Number_toString d)"

text \<open>\<^verbatim>\<open>find\<close>, lines 136 to 149.\<close>

definition find_fs ::
  "URL \<Rightarrow> AwsS3CredentialProvider \<Rightarrow> world \<Rightarrow>
     (error + FsAwsS3 option) \<times> AwsS3CredentialProvider \<times> world" where
  "find_fs path p w =
     (case findCredentials path p w of
        (Inl e, p1, w1) \<Rightarrow> (Inl e, p1, w1)
      | (Inr None, p1, w1) \<Rightarrow> (Inr None, p1, w1)
      | (Inr (Some cs), p1, w1) \<Rightarrow>
          (case fileSystems p1 (cacheKey cs) of
             Some existing \<Rightarrow> (Inr (Some existing), p1, w1)
           | None \<Rightarrow>
               (case createFileSystem p1 cs w1 of
                  (existing, w2) \<Rightarrow>
                    (Inr (Some existing),
                     p1\<lparr>fileSystems := (fileSystems p1)(cacheKey cs \<mapsto> existing)\<rparr>,
                     if onFileSystemCreated p1
                     then w2\<lparr>observed := observed w2 @ [(cs, existing)]\<rparr> else w2))))"

subsection \<open>The v3 adapter's constants\<close>

text \<open>\<^verbatim>\<open>s3.v3.ts\<close>, lines 23 and 34.\<close>

definition OneMegaByte :: int where
  "OneMegaByte = 1024 * 1204"

definition uploadPartSize :: int where
  "uploadPartSize = 10 * OneMegaByte"

subsection \<open>Interleaved callers\<close>

text \<open>
  \<^verbatim>\<open>FsConfigFetcher.findCredentials\<close> is asynchronous: a call runs lines 42 and 43 up to the
  \<^verbatim>\<open>await\<close> (the getter runs to its end, without suspension), and is resumed with lines 44
  to 47 once the promise has settled. A schedule is a list of events: a new call for a URL,
  the settling of the promise, and the resumption of the i-th suspended caller. A caller
  holds the promise the getter returned to it.
\<close>

datatype event =
    Call URL
  | Settle
  | Resume nat

record run_state =
  fetcher :: FsConfigFetcher
  surroundings :: world
  settled :: bool
  waiting :: "(URL \<times> (error + AwsCredentialProvider)) list"
  delivered :: "(URL \<times> (error + AwsCredentialConfig option)) list"

fun step :: "event \<Rightarrow> run_state \<Rightarrow> run_state" where
  "step (Call u) s =
     (case config (fetcher s) (surroundings s) of
        (p, f', w') \<Rightarrow> s\<lparr>fetcher := f', surroundings := w', waiting := waiting s @ [(u, p)]\<rparr>)"
| "step Settle s = (if memo_config (fetcher s) = None then s else s\<lparr>settled := True\<rparr>)"
| "step (Resume i) s =
     (if settled s \<and> i < length (waiting s)
      then (case waiting s ! i of
              (u, p) \<Rightarrow>
                s\<lparr>waiting := take i (waiting s) @ drop (Suc i) (waiting s),
                  delivered := delivered s @ [(u, answer p u)]\<rparr>)
      else s)"

fun run :: "event list \<Rightarrow> run_state \<Rightarrow> run_state" where
  "run [] s = s"
| "run (e # es) s = run es (step e s)"

definition start :: "FsConfigFetcher \<Rightarrow> world \<Rightarrow> run_state" where
  "start f w = \<lparr>fetcher = f, surroundings = w, settled = False, waiting = [], delivered = []\<rparr>"

fun is_Call :: "event \<Rightarrow> bool" where
  "is_Call (Call u) = True"
| "is_Call e = False"

subsection \<open>Sequences of lookups\<close>

text \<open>One \<^verbatim>\<open>find\<close> after the other, each run to its end; the results are collected.\<close>

fun finds ::
  "URL list \<Rightarrow> AwsS3CredentialProvider \<Rightarrow> world \<Rightarrow>
     (error + FsAwsS3 option) list \<times> AwsS3CredentialProvider \<times> world" where
  "finds [] p w = ([], p, w)"
| "finds (u # us) p w =
     (case find_fs u p w of
        (r, p1, w1) \<Rightarrow> (case finds us p1 w1 of (rs, p2, w2) \<Rightarrow> (r # rs, p2, w2)))"

subsection \<open>What a source holds\<close>

text \<open>
  The vocabulary of the properties below. The document of a loader is the outcome of its
  promise: the memoized one, or the one its first read gives. A source answers a URL with
  a descriptor, with none, or with the failure of its document. A visit leaves a loader
  with its memo set, and issues a read if the memo was empty.
\<close>

definition document :: "FsConfigFetcher \<Rightarrow> error + AwsCredentialProvider" where
  "document f = (case memo_config f of Some p \<Rightarrow> p | None \<Rightarrow> fetch (fs f) (loc f))"

fun lookup :: "URL \<Rightarrow> source \<Rightarrow> error + AwsCredentialConfig option" where
  "lookup u (Inline cfg) = Inr (if startsWith (href u) (prefix cfg) then Some cfg else None)"
| "lookup u (Fetcher f) = answer (document f) u"

fun visit :: "source \<Rightarrow> source" where
  "visit (Inline cfg) = Inline cfg"
| "visit (Fetcher f) = Fetcher (f\<lparr>memo_config := Some (document f)\<rparr>)"

fun fresh_reads :: "source list \<Rightarrow> URL list" where
  "fresh_reads [] = []"
| "fresh_reads (Inline cfg # rest) = fresh_reads rest"
| "fresh_reads (Fetcher f # rest) =
     (if memo_config f = None then loc f # fresh_reads rest else fresh_reads rest)"

text \<open>
  A state of a schedule is coherent with an outcome when the loader's document is that
  outcome, every suspended caller holds it, and every delivered result was computed from it.
\<close>

definition coherent :: "error + AwsCredentialProvider \<Rightarrow> run_state \<Rightarrow> bool" where
  "coherent d s \<longleftrightarrow>
     document (fetcher s) = d
     \<and> (\<forall>(u, p)\<in>set (waiting s). p = d)
     \<and> (\<forall>(u, r)\<in>set (delivered s). r = answer d u)"

subsection \<open>Concrete registries\<close>

text \<open>
  A provider as its constructor leaves it (lines 59 to 88), and surroundings in which
  nothing has happened yet.
\<close>

definition new_provider :: AwsS3CredentialProvider where
  "new_provider =
     \<lparr>defaultSessionDuration = None, configs = [], fileSystems = Map.empty,
      version = ''v3'', onFileSystemCreated = False\<rparr>"

definition quiet_world :: world where
  "quiet_world =
     \<lparr>reads = [], constructed = 0, observed = [], now = (\<lambda>k. 0), random = (\<lambda>k. ''r'')\<rparr>"

text \<open>Two roles whose identifying fields differ and whose keys coincide.\<close>

definition role_a :: AwsCredentialConfig where
  "role_a =
     \<lparr>prefix = ''s3://bucket-a/'', roleArn = ''arn:aws:iam::1:role/x'',
      externalId = Some ''y__z'', roleSessionDuration = None, type = None\<rparr>"

definition role_b :: AwsCredentialConfig where
  "role_b =
     \<lparr>prefix = ''s3://bucket-b/'', roleArn = ''arn:aws:iam::1:role/x__y'',
      externalId = Some ''z'', roleSessionDuration = None, type = None\<rparr>"

definition two_roles :: AwsS3CredentialProvider where
  "two_roles = register role_b (register role_a new_provider)"

definition client_a :: FsAwsS3 where
  "client_a =
     \<lparr>oid = 0, RoleArn = ''arn:aws:iam::1:role/x'', ExternalId = Some ''y__z'',
      RoleSessionName = ''fsa-v3-0-r'', DurationSeconds = None\<rparr>"

text \<open>
  Inline descriptors, a file system holding three documents (a valid one, one of version 1
  and one that is not JSON; any other location cannot be read), and registries built from
  them with \<open>register\<close> and \<open>registerConfig\<close>.
\<close>

definition bucket_a :: AwsCredentialConfig where
  "bucket_a =
     \<lparr>prefix = ''s3://bucket-a'', roleArn = ''role-A'', externalId = None,
      roleSessionDuration = None, type = Some ''s3''\<rparr>"

definition bucket_b :: AwsCredentialConfig where
  "bucket_b =
     \<lparr>prefix = ''s3://bucket-b/'', roleArn = ''role-B'', externalId = None,
      roleSessionDuration = None, type = None\<rparr>"

definition bucket_c :: AwsCredentialConfig where
  "bucket_c =
     \<lparr>prefix = ''s3://bucket-c/'', roleArn = ''role-A'', externalId = None,
      roleSessionDuration = None, type = Some ''s3''\<rparr>"

definition anything :: AwsCredentialConfig where
  "anything =
     \<lparr>prefix = ''s3://'', roleArn = ''role-W'', externalId = None,
      roleSessionDuration = None, type = Some ''s3''\<rparr>"

definition cfg_files :: FileSystem where
  "cfg_files u =
     (if href u = ''s3://cfg/creds.json''
      then Inr (JsonText (ParsedValue (JNumber 2) (JArray [bucket_b])))
      else if href u = ''s3://cfg/v1.json''
      then Inr (JsonText (ParsedValue (JNumber 1) (JArray [])))
      else if href u = ''s3://cfg/broken.json''
      then Inr (Malformed ''{'')
      else Inl (ReadFailure ''NoSuchKey''))"

definition loader :: "string \<Rightarrow> FsConfigFetcher" where
  "loader h = \<lparr>loc = \<lparr>href = h\<rparr>, fs = cfg_files, memo_config = None\<rparr>"

definition layered :: AwsS3CredentialProvider where
  "layered =
     registerConfig \<lparr>href = ''s3://cfg/v1.json''\<rparr> cfg_files
       (register anything
         (register bucket_a
           (registerConfig \<lparr>href = ''s3://cfg/creds.json''\<rparr> cfg_files new_provider)))"

definition guarded :: "string \<Rightarrow> AwsS3CredentialProvider" where
  "guarded h =
     register anything
       (registerConfig \<lparr>href = h\<rparr> cfg_files (register bucket_a new_provider))"

definition scenario :: AwsS3CredentialProvider where
  "scenario =
     registerConfig \<lparr>href = ''s3://cfg/creds.json''\<rparr> cfg_files (register bucket_a new_provider)"

definition client_A :: FsAwsS3 where
  "client_A =
     \<lparr>oid = 0, RoleArn = ''role-A'', ExternalId = None,
      RoleSessionName = ''fsa-v3-0-r'', DurationSeconds = None\<rparr>"

definition shared :: AwsS3CredentialProvider where
  "shared = register bucket_c (register bucket_a new_provider)"

definition watched :: AwsS3CredentialProvider where
  "watched = (register bucket_a new_provider)\<lparr>onFileSystemCreated := True\<rparr>"

section \<open>Properties\<close>

subsection \<open>Auxiliary facts\<close>

declare digits.simps [simp del]

lemma digits_0: "digits 0 = ''0''"
  by (subst digits.simps) simp

lemma startsWith_iff: "startsWith s p \<longleftrightarrow> (\<exists>t. s = p @ t)"
  unfolding startsWith_def
  by (metis append_eq_conv_conj append_take_drop_id)


lemma scan_find: "scan h es = find (\<lambda>c. \<exists>t. h = prefix c @ t) es"
  by (induction es) (simp_all add: startsWith_iff)

lemma config_eq:
  "config f w =
     (document f, f\<lparr>memo_config := Some (document f)\<rparr>,
      w\<lparr>reads := reads w @ (if memo_config f = None then [loc f] else [])\<rparr>)"
  by (cases "memo_config f") (simp_all add: config_def document_def Let_def)

lemma fetcher_find_eq:
  "FsConfigFetcher_findCredentials u f w =
     (answer (document f) u, f\<lparr>memo_config := Some (document f)\<rparr>,
      w\<lparr>reads := reads w @ (if memo_config f = None then [loc f] else [])\<rparr>)"
  by (simp add: FsConfigFetcher_findCredentials_def config_eq)

lemma document_memo [simp]: "document (f\<lparr>memo_config := Some (document f)\<rparr>) = document f"
  by (simp add: document_def)

lemma loop_none:
  "\<forall>s\<in>set ss. lookup u s = Inr None \<Longrightarrow>
   sources_loop u ss w = (Inr None, map visit ss, w\<lparr>reads := reads w @ fresh_reads ss\<rparr>)"
proof (induction ss arbitrary: w)
  case Nil
  then show ?case by simp
next
  case (Cons s ss)
  show ?case
  proof (cases s)
    case (Inline c)
    with Cons show ?thesis by (simp split: if_splits)
  next
    case (Fetcher f)
    with Cons show ?thesis by (simp add: fetcher_find_eq)
  qed
qed

lemma loop_first:
  "\<forall>s\<in>set pre. lookup u s = Inr None \<Longrightarrow> lookup u s \<noteq> Inr None \<Longrightarrow>
   sources_loop u (pre @ s # post) w =
     (lookup u s, map visit pre @ visit s # post, w\<lparr>reads := reads w @ fresh_reads (pre @ [s])\<rparr>)"
proof (induction pre arbitrary: w)
  case Nil
  show ?case
  proof (cases s)
    case (Inline c)
    with Nil show ?thesis by (simp split: if_splits)
  next
    case (Fetcher f)
    with Nil show ?thesis
      by (cases "answer (document f) u") (auto simp add: fetcher_find_eq split: option.splits)
  qed
next
  case (Cons t pre)
  show ?case
  proof (cases t)
    case (Inline c)
    with Cons show ?thesis by (simp split: if_splits)
  next
    case (Fetcher f)
    with Cons show ?thesis by (simp add: fetcher_find_eq)
  qed
qed

text \<open>The loop touches nothing of the surroundings but the log of reads.\<close>

lemma loop_world:
  "sources_loop u ss w = (r, ss', w') \<Longrightarrow> w' = w\<lparr>reads := reads w'\<rparr>"
proof (induction ss arbitrary: w r ss' w')
  case Nil
  then show ?case by auto
next
  case (Cons s ss)
  show ?case
  proof (cases s)
    case (Inline c)
    show ?thesis
    proof (cases "startsWith (href u) (prefix c)")
      case True
      with Cons.prems Inline show ?thesis by auto
    next
      case False
      obtain r0 ss0 w0 where l: "sources_loop u ss w = (r0, ss0, w0)"
        by (cases "sources_loop u ss w") auto
      from Cons.IH [OF l] have "w0 = w\<lparr>reads := reads w0\<rparr>" .
      moreover from Cons.prems Inline False l have "w' = w0" by simp
      ultimately show ?thesis by simp
    qed
  next
    case (Fetcher f)
    let ?w1 = "w\<lparr>reads := reads w @ (if memo_config f = None then [loc f] else [])\<rparr>"
    show ?thesis
    proof (cases "answer (document f) u = Inr None")
      case True
      obtain r0 ss0 w0 where l: "sources_loop u ss ?w1 = (r0, ss0, w0)"
        by (cases "sources_loop u ss ?w1") auto
      from Cons.IH [OF l] have "w0 = ?w1\<lparr>reads := reads w0\<rparr>" .
      moreover from Cons.prems Fetcher True l have "w' = w0"
        by (simp add: fetcher_find_eq)
      ultimately show ?thesis by simp
    next
      case False
      with Cons.prems Fetcher have "w' = ?w1"
        by (cases "answer (document f) u") (auto simp add: fetcher_find_eq split: option.splits)
      then show ?thesis by simp
    qed
  qed
qed

lemma findCredentials_frame:
  assumes "findCredentials u p w = (r, p1, w1)"
  shows "p1 = p\<lparr>configs := configs p1\<rparr> \<and> w1 = w\<lparr>reads := reads w1\<rparr>"
proof -
  obtain r0 ss0 w0 where l: "sources_loop u (configs p) w = (r0, ss0, w0)"
    by (cases "sources_loop u (configs p) w") auto
  with assms have "p1 = p\<lparr>configs := ss0\<rparr>" and "w1 = w0"
    by (simp_all add: findCredentials_def)
  with loop_world [OF l] show ?thesis by simp
qed

lemma document_set: "document (f\<lparr>memo_config := Some d\<rparr>) = d"
  by (simp add: document_def)

text \<open>What \<^verbatim>\<open>find\<close> does once the registry has resolved a descriptor.\<close>

lemma find_fs_miss:
  assumes "findCredentials u p w = (Inr (Some cs), p1, w1)"
    and "fileSystems p (cacheKey cs) = None"
  shows "find_fs u p w =
           (Inr (Some (fst (createFileSystem p1 cs w1))),
            p1\<lparr>fileSystems := (fileSystems p)(cacheKey cs \<mapsto> fst (createFileSystem p1 cs w1))\<rparr>,
            w1\<lparr>constructed := Suc (constructed w),
               observed := observed w @
                 (if onFileSystemCreated p then [(cs, fst (createFileSystem p1 cs w1))] else [])\<rparr>)"
proof -
  from findCredentials_frame [OF assms(1)]
  have p1: "p1 = p\<lparr>configs := configs p1\<rparr>" and w1: "w1 = w\<lparr>reads := reads w1\<rparr>"
    by simp_all
  have "fileSystems p1 = fileSystems p" "onFileSystemCreated p1 = onFileSystemCreated p"
    by (subst p1, simp)+
  moreover have "constructed w1 = constructed w" "observed w1 = observed w"
    by (subst w1, simp)+
  ultimately show ?thesis
    using assms by (simp add: find_fs_def createFileSystem_def split: prod.splits)
qed

lemma find_fs_hit:
  assumes "findCredentials u p w = (Inr (Some cs), p1, w1)"
    and "fileSystems p (cacheKey cs) = Some c"
  shows "find_fs u p w = (Inr (Some c), p1, w1)
         \<and> fileSystems p1 = fileSystems p
         \<and> constructed w1 = constructed w
         \<and> observed w1 = observed w"
proof -
  from findCredentials_frame [OF assms(1)]
  have p1: "p1 = p\<lparr>configs := configs p1\<rparr>" and w1: "w1 = w\<lparr>reads := reads w1\<rparr>"
    by simp_all
  have "fileSystems p1 = fileSystems p"
    by (subst p1) simp
  moreover have "constructed w1 = constructed w" "observed w1 = observed w"
    by (subst w1, simp)+
  ultimately show ?thesis
    using assms by (simp add: find_fs_def)
qed

text \<open>A \<^verbatim>\<open>find\<close> leaves the cache as it is, or adds one new key and constructs one client.\<close>

lemma find_fs_cases:
  assumes "find_fs u p w = (r, p1, w1)"
  shows "(fileSystems p1 = fileSystems p \<and> constructed w1 = constructed w)
         \<or> (\<exists>k c. fileSystems p k = None \<and> fileSystems p1 = (fileSystems p)(k \<mapsto> c)
               \<and> constructed w1 = Suc (constructed w))"
proof -
  obtain r0 p0 w0 where fc: "findCredentials u p w = (r0, p0, w0)"
    by (cases "findCredentials u p w") auto
  from findCredentials_frame [OF fc]
  have p0: "p0 = p\<lparr>configs := configs p0\<rparr>" and w0: "w0 = w\<lparr>reads := reads w0\<rparr>"
    by simp_all
  have fs0: "fileSystems p0 = fileSystems p" by (subst p0) simp
  have c0: "constructed w0 = constructed w" by (subst w0) simp
  show ?thesis
  proof (cases r0)
    case (Inl e)
    with assms fc fs0 c0 show ?thesis by (auto simp add: find_fs_def)
  next
    case (Inr o1)
    show ?thesis
    proof (cases o1)
      case None
      with Inr assms fc fs0 c0 show ?thesis by (auto simp add: find_fs_def)
    next
      case (Some cs)
      note cs = this
      show ?thesis
      proof (cases "fileSystems p (cacheKey cs)")
        case None
        from fc Inr cs have "findCredentials u p w = (Inr (Some cs), p0, w0)" by simp
        from find_fs_miss [OF this None] assms show ?thesis
          using None by auto
      next
        case (Some c)
        from fc Inr cs have "findCredentials u p w = (Inr (Some cs), p0, w0)" by simp
        from find_fs_hit [OF this Some] assms show ?thesis by auto
      qed
    qed
  qed
qed

lemma find_fs_keeps:
  assumes "find_fs u p w = (r, p1, w1)" and "fileSystems p k = Some c"
  shows "fileSystems p1 k = Some c"
  using find_fs_cases [OF assms(1)] assms(2) by (auto simp add: fun_upd_def)

lemma find_fs_count:
  assumes "find_fs u p w = (r, p1, w1)" and "finite (dom (fileSystems p))"
  shows "finite (dom (fileSystems p1))
         \<and> card (dom (fileSystems p1)) + constructed w = card (dom (fileSystems p)) + constructed w1"
proof -
  from find_fs_cases [OF assms(1)]
  consider "fileSystems p1 = fileSystems p" "constructed w1 = constructed w"
    | k c where "fileSystems p k = None" "fileSystems p1 = (fileSystems p)(k \<mapsto> c)"
        "constructed w1 = Suc (constructed w)"
    by blast
  then show ?thesis
  proof cases
    case 1
    with assms(2) show ?thesis by simp
  next
    case 2
    from 2(1) have "k \<notin> dom (fileSystems p)" by (simp add: domIff)
    with 2 assms(2) show ?thesis by simp
  qed
qed

lemma finds_keeps:
  "finds us p w = (rs, p1, w1) \<Longrightarrow> fileSystems p k = Some c \<Longrightarrow> fileSystems p1 k = Some c"
proof (induction us arbitrary: p w rs p1 w1)
  case Nil
  then show ?case by simp
next
  case (Cons u us)
  obtain r pa wa where f: "find_fs u p w = (r, pa, wa)"
    by (cases "find_fs u p w") auto
  obtain rs' pb wb where g: "finds us pa wa = (rs', pb, wb)"
    by (cases "finds us pa wa") auto
  from Cons.prems(1) f g have "pb = p1" by simp
  with Cons.IH [OF g find_fs_keeps [OF f Cons.prems(2)]] show ?case by simp
qed

lemma finds_count:
  "finds us p w = (rs, p1, w1) \<Longrightarrow> finite (dom (fileSystems p)) \<Longrightarrow>
   finite (dom (fileSystems p1))
   \<and> card (dom (fileSystems p1)) + constructed w = card (dom (fileSystems p)) + constructed w1"
proof (induction us arbitrary: p w rs p1 w1)
  case Nil
  then show ?case by simp
next
  case (Cons u us)
  obtain r pa wa where f: "find_fs u p w = (r, pa, wa)"
    by (cases "find_fs u p w") auto
  obtain rs' pb wb where g: "finds us pa wa = (rs', pb, wb)"
    by (cases "finds us pa wa") auto
  from Cons.prems(1) f g have e: "pb = p1" "wb = w1" by simp_all
  from find_fs_count [OF f Cons.prems(2)]
  have a: "finite (dom (fileSystems pa))"
    and b: "card (dom (fileSystems pa)) + constructed w = card (dom (fileSystems p)) + constructed wa"
    by simp_all
  from Cons.IH [OF g a] e
  have "finite (dom (fileSystems p1))"
    and "card (dom (fileSystems p1)) + constructed wa = card (dom (fileSystems pa)) + constructed w1"
    by simp_all
  with b show ?case by simp
qed

lemma find_fs_resolved:
  assumes "find_fs u p w = (r, p1, w1)" and "fst (findCredentials u p w) = Inr (Some cs)"
  shows "\<exists>c. r = Inr (Some c) \<and> fileSystems p1 (cacheKey cs) = Some c
           \<and> (fileSystems p (cacheKey cs) = Some c \<or> fileSystems p (cacheKey cs) = None)
           \<and> (fileSystems p (cacheKey cs) = Some c \<longrightarrow> constructed w1 = constructed w)"
proof -
  obtain p0 w0 where fc: "findCredentials u p w = (Inr (Some cs), p0, w0)"
    using assms(2) by (cases "findCredentials u p w") auto
  show ?thesis
  proof (cases "fileSystems p (cacheKey cs)")
    case None
    from find_fs_miss [OF fc None] assms(1) None show ?thesis by auto
  next
    case (Some c)
    from find_fs_hit [OF fc Some] assms(1) Some show ?thesis by auto
  qed
qed

lemma cacheKey_cong:
  "roleArn a = roleArn b \<Longrightarrow> externalId a = externalId b \<Longrightarrow>
   roleSessionDuration a = roleSessionDuration b \<Longrightarrow> cacheKey a = cacheKey b"
  by (simp add: cacheKey_def)

text \<open>The schedule: every step keeps a state coherent, and only a first call reads.\<close>

lemma memo_set_idem:
  "memo_config f \<noteq> None \<Longrightarrow> f\<lparr>memo_config := Some (document f)\<rparr> = f"
  by (cases "memo_config f") (simp_all add: document_def)

lemma step_Call:
  "step (Call u) s =
     s\<lparr>fetcher := (fetcher s)\<lparr>memo_config := Some (document (fetcher s))\<rparr>,
       surroundings := (surroundings s)\<lparr>reads := reads (surroundings s) @
          (if memo_config (fetcher s) = None then [loc (fetcher s)] else [])\<rparr>,
       waiting := waiting s @ [(u, document (fetcher s))]\<rparr>"
  by (simp add: config_eq)

lemma step_coherent: "coherent d s \<Longrightarrow> coherent d (step e s)"
proof (cases e)
  case (Call u)
  assume "coherent d s"
  then show ?thesis unfolding Call step_Call by (auto simp add: coherent_def)
next
  case Settle
  assume "coherent d s"
  then show ?thesis unfolding Settle by (auto simp add: coherent_def)
next
  case (Resume i)
  assume c: "coherent d s"
  show ?thesis
  proof (cases "settled s \<and> i < length (waiting s)")
    case False
    with c show ?thesis unfolding Resume by auto
  next
    case True
    obtain u p where up: "waiting s ! i = (u, p)" by (cases "waiting s ! i") auto
    from True have "waiting s ! i \<in> set (waiting s)" by simp
    with up c have p: "p = d" by (auto simp add: coherent_def)
    have sub: "set (take i (waiting s) @ drop (Suc i) (waiting s)) \<subseteq> set (waiting s)"
      by (auto dest: in_set_takeD in_set_dropD)
    from c sub p True up show ?thesis
      unfolding Resume by (auto simp add: coherent_def)
  qed
qed

lemma run_coherent: "coherent d s \<Longrightarrow> coherent d (run es s)"
  by (induction es arbitrary: s) (simp_all add: step_coherent)

lemma step_fetcher:
  "fetcher (step e s) =
     (if is_Call e then (fetcher s)\<lparr>memo_config := Some (document (fetcher s))\<rparr> else fetcher s)"
  by (cases e) (simp_all add: config_eq split: prod.splits)

lemma step_reads:
  "reads (surroundings (step e s)) =
     reads (surroundings s) @
       (if memo_config (fetcher s) = None \<and> is_Call e then [loc (fetcher s)] else [])"
  by (cases e) (simp_all add: config_eq split: prod.splits)

lemma run_fetcher:
  "fetcher (run es s) =
     (if \<exists>e\<in>set es. is_Call e then (fetcher s)\<lparr>memo_config := Some (document (fetcher s))\<rparr>
      else fetcher s)"
proof (induction es arbitrary: s)
  case Nil
  then show ?case by simp
next
  case (Cons e es)
  show ?case
    by (simp add: Cons.IH step_fetcher)
qed

lemma run_reads:
  "reads (surroundings (run es s)) =
     reads (surroundings s) @
       (if memo_config (fetcher s) = None \<and> (\<exists>e\<in>set es. is_Call e) then [loc (fetcher s)] else [])"
proof (induction es arbitrary: s)
  case Nil
  then show ?case by simp
next
  case (Cons e es)
  show ?case
    by (simp add: Cons.IH step_fetcher step_reads)
qed

lemma start_coherent: "coherent (document f) (start f w)"
  by (simp add: coherent_def start_def)

text \<open>A call run to its end is the schedule: call, settle, resume.\<close>

lemma sequential_call:
  "waiting s = [] \<Longrightarrow>
   run [Call u, Settle, Resume 0] s =
     (case FsConfigFetcher_findCredentials u (fetcher s) (surroundings s) of
        (r, f', w') \<Rightarrow>
          s\<lparr>fetcher := f', surroundings := w', settled := True,
            delivered := delivered s @ [(u, r)]\<rparr>)"
  by (simp add: fetcher_find_eq config_eq)

text \<open>Evaluation of the concrete registries.\<close>

lemmas examples =
  bucket_a_def bucket_b_def bucket_c_def anything_def cfg_files_def loader_def layered_def
  guarded_def scenario_def client_A_def new_provider_def quiet_world_def register_def
  registerConfig_def

lemmas evals =
  startsWith_def document_def fetch_def JSON_parse_def validateConfig_def answer_def

lemma doc_creds: "document (loader ''s3://cfg/creds.json'') = Inr \<lparr>v = 2, prefixes = [bucket_b]\<rparr>"
  by (simp add: examples evals)

lemma doc_v1:
  "document (loader ''s3://cfg/v1.json'') =
     Inl (Error ''Configuration is not v2 from:s3://cfg/v1.json'')"
  by (simp add: examples evals)

lemma doc_broken: "document (loader ''s3://cfg/broken.json'') = Inl (SyntaxError ''{'')"
  by (simp add: examples evals)

lemma doc_gone: "document (loader ''s3://cfg/gone.json'') = Inl (ReadFailure ''NoSuchKey'')"
  by (simp add: examples evals)

lemma guarded_configs:
  "configs (guarded h) = [Inline bucket_a] @ Fetcher (loader h) # [Inline anything]"
  by (simp add: examples)

lemma guarded_pre:
  "\<forall>t\<in>set [Inline bucket_a]. lookup \<lparr>href = ''s3://other/x''\<rparr> t = Inr None"
  by (simp add: examples evals)

lemmas find_evals =
  find_fs_def findCredentials_def startsWith_def cacheKey_def createFileSystem_def
  createRoleSessionName_def Number_toString_def digits_0

subsection \<open>Prefix matching\<close>

text \<open>
  C1: a URL matches a descriptor exactly when its full string form starts with the
  descriptor's prefix, as plain text. The scan of a document's entries returns the first
  entry whose prefix the href starts with; a loader answers with that scan of its document
  (or with the document's failure); an inline source matches exactly when the href starts
  with its prefix, and otherwise the lookup goes on with the later sources.
\<close>

theorem prefix_match:
  "scan h es = find (\<lambda>c. \<exists>t. h = prefix c @ t) es
   \<and> fst (FsConfigFetcher_findCredentials u f w) =
       (case document f of
          Inl e \<Rightarrow> Inl e
        | Inr d \<Rightarrow> Inr (find (\<lambda>c. \<exists>t. href u = prefix c @ t) (prefixes d)))
   \<and> fst (sources_loop u (Inline c # rest) w) =
       (if \<exists>t. href u = prefix c @ t then Inr (Some c) else fst (sources_loop u rest w))
   \<and> fst (findCredentials u (p\<lparr>configs := [Inline c]\<rparr>) w) =
       (if \<exists>t. href u = prefix c @ t then Inr (Some c) else Inr None)"
proof -
  have 1: "scan h es = find (\<lambda>c. \<exists>t. h = prefix c @ t) es"
    by (rule scan_find)
  have 2: "fst (FsConfigFetcher_findCredentials u f w) =
       (case document f of
          Inl e \<Rightarrow> Inl e
        | Inr d \<Rightarrow> Inr (find (\<lambda>c. \<exists>t. href u = prefix c @ t) (prefixes d)))"
    by (simp add: fetcher_find_eq answer_def scan_find split: sum.splits)
  have 3: "fst (sources_loop u (Inline c # rest) w) =
       (if \<exists>t. href u = prefix c @ t then Inr (Some c) else fst (sources_loop u rest w))"
    by (simp add: startsWith_iff split: prod.splits)
  have 4: "fst (findCredentials u (p\<lparr>configs := [Inline c]\<rparr>) w) =
       (if \<exists>t. href u = prefix c @ t then Inr (Some c) else Inr None)"
    by (simp add: findCredentials_def startsWith_iff)
  from 1 2 3 4 show ?thesis by blast
qed

text \<open>
  The match is not aware of path segments: the prefix \<^verbatim>\<open>s3://bucket-a\<close> matches a URL of
  the bucket \<^verbatim>\<open>bucket-abc\<close>, and does not match a URL of the bucket \<^verbatim>\<open>bucket\<close>.
\<close>

theorem prefix_match_witness:
  "fst (findCredentials \<lparr>href = ''s3://bucket-abc/key.txt''\<rparr>
         (new_provider\<lparr>configs := [Inline bucket_a]\<rparr>) quiet_world) = Inr (Some bucket_a)
   \<and> fst (findCredentials \<lparr>href = ''s3://bucket/key.txt''\<rparr>
         (new_provider\<lparr>configs := [Inline bucket_a]\<rparr>) quiet_world) = Inr None"
proof -
  have a: "\<exists>t. ''s3://bucket-abc/key.txt'' = prefix bucket_a @ t"
    by (simp add: startsWith_iff [symmetric] startsWith_def bucket_a_def)
  have b: "\<not> (\<exists>t. ''s3://bucket/key.txt'' = prefix bucket_a @ t)"
    by (simp add: startsWith_iff [symmetric] startsWith_def bucket_a_def)
  from a b show ?thesis
    using prefix_match [of _ _ "\<lparr>href = ''s3://bucket-abc/key.txt''\<rparr>" _ quiet_world bucket_a _ new_provider]
      prefix_match [of _ _ "\<lparr>href = ''s3://bucket/key.txt''\<rparr>" _ quiet_world bucket_a _ new_provider]
    by simp
qed

subsection \<open>Registration order\<close>

text \<open>
  C2: \<^verbatim>\<open>findCredentials\<close> visits the sources in registration order and returns the
  descriptor of the first source that matches. When the sources before \<open>s\<close> answer none
  and \<open>s\<close> answers with \<open>c\<close>, the result is \<open>c\<close> whatever the later sources \<open>post\<close> hold;
  they are left as they were (no memo is set and no read is issued for them).
  \<open>register\<close> and \<open>registerConfig\<close> append, so the order of the list is the order of
  registration.
\<close>

theorem first_match_wins:
  assumes "configs p = pre @ s # post"
    and "\<forall>t\<in>set pre. lookup u t = Inr None"
    and "lookup u s = Inr (Some c)"
  shows "findCredentials u p w =
           (Inr (Some c), p\<lparr>configs := map visit pre @ visit s # post\<rparr>,
            w\<lparr>reads := reads w @ fresh_reads (pre @ [s])\<rparr>)
         \<and> configs (register a p) = configs p @ [Inline (a\<lparr>type := Some ''s3''\<rparr>)]
         \<and> configs (registerConfig l r p) =
             configs p @ [Fetcher \<lparr>loc = l, fs = r, memo_config = None\<rparr>]"
proof -
  from assms(3) have "lookup u s \<noteq> Inr None" by simp
  from loop_first [OF assms(2) this, of post w] assms(1,3)
  show ?thesis by (simp add: findCredentials_def register_def registerConfig_def)
qed

text \<open>
  A document without a match, then two inline descriptors that both match, then a document
  that would fail: the first inline descriptor is returned, one read is issued, and the
  last loader is not touched.
\<close>

theorem first_match_wins_witness:
  "findCredentials \<lparr>href = ''s3://bucket-a/key.txt''\<rparr> layered quiet_world =
     (Inr (Some bucket_a),
      layered\<lparr>configs :=
        [Fetcher ((loader ''s3://cfg/creds.json'')
            \<lparr>memo_config := Some (Inr \<lparr>v = 2, prefixes = [bucket_b]\<rparr>)\<rparr>),
         Inline bucket_a, Inline anything, Fetcher (loader ''s3://cfg/v1.json'')]\<rparr>,
      quiet_world\<lparr>reads := [\<lparr>href = ''s3://cfg/creds.json''\<rparr>]\<rparr>)"
proof -
  have 1: "configs layered =
      [Fetcher (loader ''s3://cfg/creds.json'')] @ Inline bucket_a
        # [Inline anything, Fetcher (loader ''s3://cfg/v1.json'')]"
    by (simp add: examples)
  have 2: "\<forall>t\<in>set [Fetcher (loader ''s3://cfg/creds.json'')].
      lookup \<lparr>href = ''s3://bucket-a/key.txt''\<rparr> t = Inr None"
    by (simp add: doc_creds answer_def) (simp add: examples evals)
  have 3: "lookup \<lparr>href = ''s3://bucket-a/key.txt''\<rparr> (Inline bucket_a) = Inr (Some bucket_a)"
    by (simp add: examples evals)
  from first_match_wins [OF 1 2 3, of quiet_world] doc_creds
  show ?thesis by (simp add: loader_def quiet_world_def)
qed

subsection \<open>Fetch once\<close>

text \<open>
  C3: the read, parse and validation of a loader happen at most once. Under every
  schedule of calls, settling and resumptions, started from any loader: a read is issued
  exactly when the memo was empty and there is a call, and then exactly one; every result
  delivered to a caller is computed from one and the same outcome (the document or the
  error); and the memo, once set, holds that outcome, so a memoized failure is replayed
  and never read again.
\<close>

theorem fetch_once:
  "reads (surroundings (run es (start f w))) =
     reads w @ (if memo_config f = None \<and> (\<exists>e\<in>set es. is_Call e) then [loc f] else [])
   \<and> (\<forall>(u, r)\<in>set (delivered (run es (start f w))). r = answer (document f) u)
   \<and> fetcher (run es (start f w)) =
       (if \<exists>e\<in>set es. is_Call e then f\<lparr>memo_config := Some (document f)\<rparr> else f)
   \<and> (memo_config f = None \<longrightarrow> document f = fetch (fs f) (loc f))"
proof -
  have "coherent (document f) (run es (start f w))"
    by (rule run_coherent [OF start_coherent])
  then have "\<forall>(u, r)\<in>set (delivered (run es (start f w))). r = answer (document f) u"
    by (simp add: coherent_def)
  moreover have "reads (surroundings (run es (start f w))) =
     reads w @ (if memo_config f = None \<and> (\<exists>e\<in>set es. is_Call e) then [loc f] else [])"
    by (simp add: run_reads start_def)
  moreover have "fetcher (run es (start f w)) =
       (if \<exists>e\<in>set es. is_Call e then f\<lparr>memo_config := Some (document f)\<rparr> else f)"
    by (simp add: run_fetcher start_def)
  moreover have "memo_config f = None \<longrightarrow> document f = fetch (fs f) (loc f)"
    by (simp add: document_def)
  ultimately show ?thesis by blast
qed

text \<open>
  Three interleaved callers of one loader cause one read and are answered from the one
  document; two callers of a loader whose document is invalid cause one read.
\<close>

theorem fetch_once_witness:
  "reads (surroundings (run
      [Call \<lparr>href = ''s3://bucket-b/x''\<rparr>, Call \<lparr>href = ''s3://other/x''\<rparr>, Settle,
       Resume 1, Call \<lparr>href = ''s3://bucket-b/y''\<rparr>, Resume 0, Resume 0]
      (start (loader ''s3://cfg/creds.json'') quiet_world))) = [\<lparr>href = ''s3://cfg/creds.json''\<rparr>]
   \<and> delivered (run
      [Call \<lparr>href = ''s3://bucket-b/x''\<rparr>, Call \<lparr>href = ''s3://other/x''\<rparr>, Settle,
       Resume 1, Call \<lparr>href = ''s3://bucket-b/y''\<rparr>, Resume 0, Resume 0]
      (start (loader ''s3://cfg/creds.json'') quiet_world)) =
     [(\<lparr>href = ''s3://other/x''\<rparr>, Inr None),
      (\<lparr>href = ''s3://bucket-b/x''\<rparr>, Inr (Some bucket_b)),
      (\<lparr>href = ''s3://bucket-b/y''\<rparr>, Inr (Some bucket_b))]
   \<and> reads (surroundings (run
      [Call \<lparr>href = ''s3://bucket-b/x''\<rparr>, Settle, Resume 0, Call \<lparr>href = ''s3://bucket-b/y''\<rparr>]
      (start (loader ''s3://cfg/v1.json'') quiet_world))) = [\<lparr>href = ''s3://cfg/v1.json''\<rparr>]"
proof -
  have m: "memo_config (loader h) = None" "loc (loader h) = \<lparr>href = h\<rparr>" for h
    by (simp_all add: loader_def)
  have q: "reads quiet_world = []"
    by (simp add: quiet_world_def)
  have d: "delivered (run
      [Call \<lparr>href = ''s3://bucket-b/x''\<rparr>, Call \<lparr>href = ''s3://other/x''\<rparr>, Settle,
       Resume 1, Call \<lparr>href = ''s3://bucket-b/y''\<rparr>, Resume 0, Resume 0]
      (start (loader ''s3://cfg/creds.json'') quiet_world)) =
     [(\<lparr>href = ''s3://other/x''\<rparr>, Inr None),
      (\<lparr>href = ''s3://bucket-b/x''\<rparr>, Inr (Some bucket_b)),
      (\<lparr>href = ''s3://bucket-b/y''\<rparr>, Inr (Some bucket_b))]"
    by (simp add: start_def step_Call doc_creds document_set del: step.simps(1))
      (simp add: answer_def startsWith_def bucket_b_def)
  have 1: "reads (surroundings (run
      [Call \<lparr>href = ''s3://bucket-b/x''\<rparr>, Call \<lparr>href = ''s3://other/x''\<rparr>, Settle,
       Resume 1, Call \<lparr>href = ''s3://bucket-b/y''\<rparr>, Resume 0, Resume 0]
      (start (loader ''s3://cfg/creds.json'') quiet_world))) = [\<lparr>href = ''s3://cfg/creds.json''\<rparr>]"
    by (simp only: fetch_once [THEN conjunct1]) (simp add: m q)
  have 2: "reads (surroundings (run
      [Call \<lparr>href = ''s3://bucket-b/x''\<rparr>, Settle, Resume 0, Call \<lparr>href = ''s3://bucket-b/y''\<rparr>]
      (start (loader ''s3://cfg/v1.json'') quiet_world))) = [\<lparr>href = ''s3://cfg/v1.json''\<rparr>]"
    by (simp only: fetch_once [THEN conjunct1]) (simp add: m q)
  show ?thesis by (rule conjI [OF 1 conjI [OF d 2]])
qed

subsection \<open>The client cache\<close>

text \<open>
  C4: descriptors with the same roleArn, externalId and roleSessionDuration share one
  client. If a \<^verbatim>\<open>find\<close> resolves to \<open>cs1\<close>, and, after any further lookups, a \<^verbatim>\<open>find\<close>
  resolves to \<open>cs2\<close> with the same three fields (the prefixes may differ), then both
  return the same client and the later one constructs nothing; and over the whole run the
  number of clients constructed is the number of keys added to the cache.
\<close>

theorem cache_identity:
  assumes "finite (dom (fileSystems p))"
    and "find_fs u1 p w = (r1, p1, w1)"
    and "fst (findCredentials u1 p w) = Inr (Some cs1)"
    and "finds us p1 w1 = (rs, p2, w2)"
    and "find_fs u2 p2 w2 = (r2, p3, w3)"
    and "fst (findCredentials u2 p2 w2) = Inr (Some cs2)"
    and "roleArn cs1 = roleArn cs2"
    and "externalId cs1 = externalId cs2"
    and "roleSessionDuration cs1 = roleSessionDuration cs2"
  shows "(\<exists>c. r1 = Inr (Some c) \<and> r2 = Inr (Some c))
         \<and> constructed w3 = constructed w2
         \<and> card (dom (fileSystems p3)) + constructed w = card (dom (fileSystems p)) + constructed w3"
proof -
  have k: "cacheKey cs1 = cacheKey cs2"
    using assms(7-9) by (rule cacheKey_cong)
  from find_fs_resolved [OF assms(2,3)]
  obtain c where c: "r1 = Inr (Some c)" "fileSystems p1 (cacheKey cs1) = Some c"
    by blast
  from finds_keeps [OF assms(4) c(2)] k have held: "fileSystems p2 (cacheKey cs2) = Some c"
    by simp
  from find_fs_resolved [OF assms(5,6)] held
  have r2: "r2 = Inr (Some c)" and same: "constructed w3 = constructed w2"
    by auto
  from find_fs_count [OF assms(2,1)]
  have f1: "finite (dom (fileSystems p1))"
    and n1: "card (dom (fileSystems p1)) + constructed w = card (dom (fileSystems p)) + constructed w1"
    by simp_all
  from finds_count [OF assms(4) f1]
  have f2: "finite (dom (fileSystems p2))"
    and n2: "card (dom (fileSystems p2)) + constructed w1 = card (dom (fileSystems p1)) + constructed w2"
    by simp_all
  from find_fs_count [OF assms(5) f2]
  have n3: "card (dom (fileSystems p3)) + constructed w2 = card (dom (fileSystems p2)) + constructed w3"
    by simp
  from n1 n2 n3
  have "card (dom (fileSystems p3)) + constructed w = card (dom (fileSystems p)) + constructed w3"
    by linarith
  with c(1) r2 same show ?thesis by blast
qed

text \<open>
  Two inline descriptors of one role under different prefixes: the lookup under the second
  prefix returns the client constructed for the first.
\<close>

theorem cache_identity_witness:
  "find_fs \<lparr>href = ''s3://bucket-a/key.txt''\<rparr> shared quiet_world =
     (Inr (Some client_A),
      shared\<lparr>fileSystems := [''role-A__undefined__undefined'' \<mapsto> client_A]\<rparr>,
      quiet_world\<lparr>constructed := 1\<rparr>)
   \<and> fst (find_fs \<lparr>href = ''s3://bucket-c/other.txt''\<rparr>
       (shared\<lparr>fileSystems := [''role-A__undefined__undefined'' \<mapsto> client_A]\<rparr>)
       (quiet_world\<lparr>constructed := 1\<rparr>)) = Inr (Some client_A)
   \<and> prefix bucket_a \<noteq> prefix bucket_c"
proof -
  let ?ua = "\<lparr>href = ''s3://bucket-a/key.txt''\<rparr>"
  let ?uc = "\<lparr>href = ''s3://bucket-c/other.txt''\<rparr>"
  let ?p1 = "shared\<lparr>fileSystems := [''role-A__undefined__undefined'' \<mapsto> client_A]\<rparr>"
  let ?w1 = "quiet_world\<lparr>constructed := 1\<rparr>"
  have fin: "finite (dom (fileSystems shared))"
    by (simp add: shared_def examples)
  have f1: "find_fs ?ua shared quiet_world = (Inr (Some client_A), ?p1, ?w1)"
    by (simp add: find_evals shared_def examples)
  have c1: "fst (findCredentials ?ua shared quiet_world) = Inr (Some bucket_a)"
    by (simp add: findCredentials_def shared_def examples startsWith_def)
  have mid: "finds [\<lparr>href = ''s3://other/x''\<rparr>] ?p1 ?w1 = ([Inr None], ?p1, ?w1)"
    by (simp add: find_evals shared_def examples)
  obtain r2 p3 w3 where f2: "find_fs ?uc ?p1 ?w1 = (r2, p3, w3)"
    by (cases "find_fs ?uc ?p1 ?w1") auto
  have c2: "fst (findCredentials ?uc ?p1 ?w1) = Inr (Some bucket_c)"
    by (simp add: findCredentials_def shared_def examples startsWith_def)
  have same: "roleArn bucket_a = roleArn bucket_c" "externalId bucket_a = externalId bucket_c"
    "roleSessionDuration bucket_a = roleSessionDuration bucket_c"
    by (simp_all add: examples)
  from cache_identity [OF fin f1 c1 mid f2 c2 same] f2
  have "fst (find_fs ?uc ?p1 ?w1) = Inr (Some client_A)"
    by auto
  moreover have "prefix bucket_a \<noteq> prefix bucket_c"
    by (simp add: examples)
  ultimately show ?thesis using f1 by blast
qed

text \<open>
  C5: when \<^verbatim>\<open>find\<close> resolves a descriptor whose key is not in the cache, the new client
  is in the cache under that key when \<^verbatim>\<open>find\<close> returns, one client has been constructed,
  and the callback, if set, has been called once, with the descriptor and the client; when
  the key is in the cache, the cached client is returned and neither the cache, the
  number of clients nor the log of callback calls changes.
\<close>

theorem cache_population:
  assumes "findCredentials u p w = (Inr (Some cs), p1, w1)"
  shows "(fileSystems p (cacheKey cs) = None \<longrightarrow>
            find_fs u p w =
              (Inr (Some (fst (createFileSystem p1 cs w1))),
               p1\<lparr>fileSystems := (fileSystems p)(cacheKey cs \<mapsto> fst (createFileSystem p1 cs w1))\<rparr>,
               w1\<lparr>constructed := Suc (constructed w),
                  observed := observed w @
                    (if onFileSystemCreated p then [(cs, fst (createFileSystem p1 cs w1))] else [])\<rparr>))
         \<and> (\<forall>c. fileSystems p (cacheKey cs) = Some c \<longrightarrow>
               find_fs u p w = (Inr (Some c), p1, w1)
               \<and> fileSystems p1 = fileSystems p
               \<and> constructed w1 = constructed w
               \<and> observed w1 = observed w)"
  using find_fs_miss [OF assms] find_fs_hit [OF assms] by blast

text \<open>
  A first lookup on a fresh cache with the callback set, and the same lookup again.
\<close>

theorem cache_population_witness:
  "find_fs \<lparr>href = ''s3://bucket-a/key.txt''\<rparr> watched quiet_world =
     (Inr (Some client_A),
      watched\<lparr>fileSystems := [''role-A__undefined__undefined'' \<mapsto> client_A]\<rparr>,
      quiet_world\<lparr>constructed := 1, observed := [(bucket_a, client_A)]\<rparr>)
   \<and> find_fs \<lparr>href = ''s3://bucket-a/key.txt''\<rparr>
       (watched\<lparr>fileSystems := [''role-A__undefined__undefined'' \<mapsto> client_A]\<rparr>)
       (quiet_world\<lparr>constructed := 1, observed := [(bucket_a, client_A)]\<rparr>) =
     (Inr (Some client_A),
      watched\<lparr>fileSystems := [''role-A__undefined__undefined'' \<mapsto> client_A]\<rparr>,
      quiet_world\<lparr>constructed := 1, observed := [(bucket_a, client_A)]\<rparr>)"
proof -
  let ?u = "\<lparr>href = ''s3://bucket-a/key.txt''\<rparr>"
  let ?p1 = "watched\<lparr>fileSystems := [''role-A__undefined__undefined'' \<mapsto> client_A]\<rparr>"
  let ?w1 = "quiet_world\<lparr>constructed := 1, observed := [(bucket_a, client_A)]\<rparr>"
  have k: "cacheKey bucket_a = ''role-A__undefined__undefined''"
    by (simp add: cacheKey_def bucket_a_def)
  have fc: "findCredentials ?u watched quiet_world = (Inr (Some bucket_a), watched, quiet_world)"
    by (simp add: findCredentials_def watched_def examples startsWith_def)
  have miss: "fileSystems watched (cacheKey bucket_a) = None"
    by (simp add: watched_def examples)
  have c: "fst (createFileSystem watched bucket_a quiet_world) = client_A"
    by (simp add: createFileSystem_def createRoleSessionName_def Number_toString_def digits_0
        watched_def examples)
  have o: "onFileSystemCreated watched" "constructed quiet_world = 0" "observed quiet_world = []"
    "fileSystems watched = Map.empty"
    by (simp_all add: watched_def examples)
  from cache_population [OF fc] miss
  have 1: "find_fs ?u watched quiet_world = (Inr (Some client_A), ?p1, ?w1)"
    by (simp add: c k o)
  have fc2: "findCredentials ?u ?p1 ?w1 = (Inr (Some bucket_a), ?p1, ?w1)"
    by (simp add: findCredentials_def watched_def examples startsWith_def)
  have hit: "fileSystems ?p1 (cacheKey bucket_a) = Some client_A"
    by (simp add: k)
  from cache_population [OF fc2] hit
  have 2: "find_fs ?u ?p1 ?w1 = (Inr (Some client_A), ?p1, ?w1)"
    by blast
  show ?thesis by (rule conjI [OF 1 2])
qed

subsection \<open>Failures\<close>

text \<open>
  C6: when the sources before a loader answer none and the loader's document is a
  failure, that error is the result of the loader's \<^verbatim>\<open>findCredentials\<close>, of the
  provider's \<^verbatim>\<open>findCredentials\<close> and of \<^verbatim>\<open>find\<close>, unchanged; the later sources \<open>post\<close>
  are not visited, whatever they hold.
\<close>

theorem loader_failure_aborts:
  assumes "configs p = pre @ Fetcher f # post"
    and "\<forall>t\<in>set pre. lookup u t = Inr None"
    and "document f = Inl e"
  shows "fst (FsConfigFetcher_findCredentials u f w0) = Inl e
         \<and> findCredentials u p w =
             (Inl e, p\<lparr>configs := map visit pre @ Fetcher (f\<lparr>memo_config := Some (Inl e)\<rparr>) # post\<rparr>,
              w\<lparr>reads := reads w @ fresh_reads (pre @ [Fetcher f])\<rparr>)
         \<and> find_fs u p w =
             (Inl e, p\<lparr>configs := map visit pre @ Fetcher (f\<lparr>memo_config := Some (Inl e)\<rparr>) # post\<rparr>,
              w\<lparr>reads := reads w @ fresh_reads (pre @ [Fetcher f])\<rparr>)"
proof -
  from assms(3) have l: "lookup u (Fetcher f) = Inl e" by (simp add: answer_def)
  then have "lookup u (Fetcher f) \<noteq> Inr None" by simp
  from loop_first [OF assms(2) this, of post w] assms(1,3) l
  have fc: "findCredentials u p w =
             (Inl e, p\<lparr>configs := map visit pre @ Fetcher (f\<lparr>memo_config := Some (Inl e)\<rparr>) # post\<rparr>,
              w\<lparr>reads := reads w @ fresh_reads (pre @ [Fetcher f])\<rparr>)"
    by (simp add: findCredentials_def)
  then have "find_fs u p w =
             (Inl e, p\<lparr>configs := map visit pre @ Fetcher (f\<lparr>memo_config := Some (Inl e)\<rparr>) # post\<rparr>,
              w\<lparr>reads := reads w @ fresh_reads (pre @ [Fetcher f])\<rparr>)"
    by (simp add: find_fs_def)
  moreover from assms(3) have "fst (FsConfigFetcher_findCredentials u f w0) = Inl e"
    by (simp add: fetcher_find_eq answer_def)
  ultimately show ?thesis using fc by simp
qed

text \<open>
  A document of version 1, a document that is not JSON and a document that cannot be read,
  each registered before a descriptor that matches every URL.
\<close>

theorem loader_failure_aborts_witness:
  "fst (find_fs \<lparr>href = ''s3://other/x''\<rparr> (guarded ''s3://cfg/v1.json'') quiet_world) =
     Inl (Error ''Configuration is not v2 from:s3://cfg/v1.json'')
   \<and> fst (find_fs \<lparr>href = ''s3://other/x''\<rparr> (guarded ''s3://cfg/broken.json'') quiet_world) =
     Inl (SyntaxError ''{'')
   \<and> fst (find_fs \<lparr>href = ''s3://other/x''\<rparr> (guarded ''s3://cfg/gone.json'') quiet_world) =
     Inl (ReadFailure ''NoSuchKey'')
   \<and> lookup \<lparr>href = ''s3://other/x''\<rparr> (Inline anything) = Inr (Some anything)"
proof -
  have "lookup \<lparr>href = ''s3://other/x''\<rparr> (Inline anything) = Inr (Some anything)"
    by (simp add: examples evals)
  with loader_failure_aborts [OF guarded_configs guarded_pre doc_v1, of quiet_world quiet_world]
    loader_failure_aborts [OF guarded_configs guarded_pre doc_broken, of quiet_world quiet_world]
    loader_failure_aborts [OF guarded_configs guarded_pre doc_gone, of quiet_world quiet_world]
  show ?thesis by simp
qed

text \<open>
  C7, as amended: validation rejects \<^verbatim>\<open>null\<close>, a document whose version is not 2, and a
  document of version 2 whose prefixes are not an array (absent or of another kind); only
  a document of version 2 with an array is accepted. A wrong version is reported as
  \<^verbatim>\<open>Configuration is not v2 from:\<close> and prefixes that are absent or not an array are both
  reported as \<^verbatim>\<open>Configuration prefixes invalid from:\<close>, each followed by the document's
  location; the two messages differ. The validation follows the read at the first use of
  the loader, whose lookup fails with the error before any entry is looked at, and the
  error is memoized and replayed without another read.
\<close>

theorem validateConfig_rejections:
  "validateConfig ParsedNull l = Inl (Error (''Unknown configuration from:'' @ href l))
   \<and> (ver \<noteq> JNumber 2 \<longrightarrow>
        validateConfig (ParsedValue ver pre) l =
          Inl (Error (''Configuration is not v2 from:'' @ href l)))
   \<and> ((\<forall>entries. pre \<noteq> JArray entries) \<longrightarrow>
        validateConfig (ParsedValue (JNumber 2) pre) l =
          Inl (Error (''Configuration prefixes invalid from:'' @ href l)))
   \<and> validateConfig (ParsedValue (JNumber 2) (JArray entries)) l =
        Inr \<lparr>v = 2, prefixes = entries\<rparr>
   \<and> ''Configuration is not v2 from:'' @ href l \<noteq> ''Configuration prefixes invalid from:'' @ href l
   \<and> (memo_config f = None \<and> fs f (loc f) = Inr (JsonText cfg)
        \<and> validateConfig cfg (loc f) = Inl e \<longrightarrow>
        FsConfigFetcher_findCredentials u f w =
          (Inl e, f\<lparr>memo_config := Some (Inl e)\<rparr>, w\<lparr>reads := reads w @ [loc f]\<rparr>)
        \<and> FsConfigFetcher_findCredentials u' (f\<lparr>memo_config := Some (Inl e)\<rparr>) w' =
          (Inl e, f\<lparr>memo_config := Some (Inl e)\<rparr>, w'))"
proof -
  have 1: "validateConfig ParsedNull l = Inl (Error (''Unknown configuration from:'' @ href l))"
    by (simp add: validateConfig_def)
  have 2: "ver \<noteq> JNumber 2 \<longrightarrow>
        validateConfig (ParsedValue ver pre) l =
          Inl (Error (''Configuration is not v2 from:'' @ href l))"
    by (simp add: validateConfig_def)
  have 3: "(\<forall>entries. pre \<noteq> JArray entries) \<longrightarrow>
        validateConfig (ParsedValue (JNumber 2) pre) l =
          Inl (Error (''Configuration prefixes invalid from:'' @ href l))"
    by (cases pre) (simp_all add: validateConfig_def)
  have 4: "validateConfig (ParsedValue (JNumber 2) (JArray entries)) l =
        Inr \<lparr>v = 2, prefixes = entries\<rparr>"
    by (simp add: validateConfig_def)
  have 5: "''Configuration is not v2 from:'' @ href l \<noteq> ''Configuration prefixes invalid from:'' @ href l"
    by simp
  have 6: "memo_config f = None \<and> fs f (loc f) = Inr (JsonText cfg)
        \<and> validateConfig cfg (loc f) = Inl e \<longrightarrow>
        FsConfigFetcher_findCredentials u f w =
          (Inl e, f\<lparr>memo_config := Some (Inl e)\<rparr>, w\<lparr>reads := reads w @ [loc f]\<rparr>)
        \<and> FsConfigFetcher_findCredentials u' (f\<lparr>memo_config := Some (Inl e)\<rparr>) w' =
          (Inl e, f\<lparr>memo_config := Some (Inl e)\<rparr>, w')"
    by (simp add: fetcher_find_eq document_def fetch_def JSON_parse_def answer_def)
  from 1 2 3 4 5 6 show ?thesis by blast
qed

text \<open>
  As first stated, C7 gives each of the three rejections an error kind of its own. A
  document without prefixes and a document whose prefixes are a string are rejected with
  one and the same error.
\<close>

theorem distinct_kinds_counterexample:
  "validateConfig (ParsedValue (JNumber 2) JUndefined) \<lparr>href = ''s3://cfg/creds.json''\<rparr> =
     Inl (Error ''Configuration prefixes invalid from:s3://cfg/creds.json'')
   \<and> validateConfig (ParsedValue (JNumber 2) (JString ''s3://bucket-b/'')) \<lparr>href = ''s3://cfg/creds.json''\<rparr> =
     Inl (Error ''Configuration prefixes invalid from:s3://cfg/creds.json'')"
  by (simp add: validateConfig_def)

text \<open>
  A document of version 1 at \<^verbatim>\<open>s3://cfg/v1.json\<close>, and a document without prefixes.
\<close>

theorem validateConfig_rejections_witness:
  "validateConfig (ParsedValue (JNumber 1) (JArray [])) \<lparr>href = ''s3://cfg/v1.json''\<rparr> =
     Inl (Error ''Configuration is not v2 from:s3://cfg/v1.json'')
   \<and> validateConfig (ParsedValue (JNumber 2) JUndefined) \<lparr>href = ''s3://cfg/v1.json''\<rparr> =
     Inl (Error ''Configuration prefixes invalid from:s3://cfg/v1.json'')
   \<and> FsConfigFetcher_findCredentials \<lparr>href = ''s3://bucket-b/x''\<rparr> (loader ''s3://cfg/v1.json'') quiet_world =
     (Inl (Error ''Configuration is not v2 from:s3://cfg/v1.json''),
      (loader ''s3://cfg/v1.json'')
        \<lparr>memo_config := Some (Inl (Error ''Configuration is not v2 from:s3://cfg/v1.json''))\<rparr>,
      quiet_world\<lparr>reads := [\<lparr>href = ''s3://cfg/v1.json''\<rparr>]\<rparr>)"
proof -
  let ?l = "\<lparr>href = ''s3://cfg/v1.json''\<rparr>"
  let ?e = "Error ''Configuration is not v2 from:s3://cfg/v1.json''"
  have a: "JNumber 1 \<noteq> JNumber 2" by simp
  have b: "\<forall>entries. JUndefined \<noteq> JArray entries" by simp
  have m: "memo_config (loader ''s3://cfg/v1.json'') = None
     \<and> fs (loader ''s3://cfg/v1.json'') (loc (loader ''s3://cfg/v1.json'')) =
         Inr (JsonText (ParsedValue (JNumber 1) (JArray [])))
     \<and> validateConfig (ParsedValue (JNumber 1) (JArray [])) (loc (loader ''s3://cfg/v1.json'')) = Inl ?e"
    by (simp add: loader_def cfg_files_def validateConfig_def)
  note t = validateConfig_rejections [of ?l "JNumber 1" "JArray []" "[]"
      "loader ''s3://cfg/v1.json''" "ParsedValue (JNumber 1) (JArray [])" ?e
      "\<lparr>href = ''s3://bucket-b/x''\<rparr>" quiet_world]
  note t2 = validateConfig_rejections [of ?l "JNumber 2" JUndefined]
  from t a have 1: "validateConfig (ParsedValue (JNumber 1) (JArray [])) ?l = Inl ?e"
    by simp
  from t2 b have 2: "validateConfig (ParsedValue (JNumber 2) JUndefined) ?l =
     Inl (Error ''Configuration prefixes invalid from:s3://cfg/v1.json'')"
    by simp
  from t m have 3: "FsConfigFetcher_findCredentials \<lparr>href = ''s3://bucket-b/x''\<rparr> (loader ''s3://cfg/v1.json'') quiet_world =
     (Inl ?e, (loader ''s3://cfg/v1.json'')\<lparr>memo_config := Some (Inl ?e)\<rparr>,
      quiet_world\<lparr>reads := [\<lparr>href = ''s3://cfg/v1.json''\<rparr>]\<rparr>)"
    by (simp add: loader_def quiet_world_def)
  show ?thesis by (rule conjI [OF 1 conjI [OF 2 3]])
qed

text \<open>
  C8: when no source matches (every inline prefix fails to match, and every loader's
  document is valid and has no matching entry), \<^verbatim>\<open>find\<close> returns none and no error; the
  cache, the number of clients constructed and the log of callback calls are unchanged.
\<close>

theorem no_match_is_none:
  assumes "\<forall>s\<in>set (configs p). lookup u s = Inr None"
  shows "find_fs u p w =
           (Inr None, p\<lparr>configs := map visit (configs p)\<rparr>,
            w\<lparr>reads := reads w @ fresh_reads (configs p)\<rparr>)
         \<and> fileSystems (fst (snd (find_fs u p w))) = fileSystems p
         \<and> constructed (snd (snd (find_fs u p w))) = constructed w
         \<and> observed (snd (snd (find_fs u p w))) = observed w"
proof -
  from loop_none [OF assms, of w]
  have "find_fs u p w =
           (Inr None, p\<lparr>configs := map visit (configs p)\<rparr>,
            w\<lparr>reads := reads w @ fresh_reads (configs p)\<rparr>)"
    by (simp add: find_fs_def findCredentials_def)
  then show ?thesis by simp
qed

text \<open>
  An inline descriptor and a valid document, neither matching the URL.
\<close>

theorem no_match_is_none_witness:
  "find_fs \<lparr>href = ''s3://other/x''\<rparr> scenario quiet_world =
     (Inr None,
      scenario\<lparr>configs :=
        [Inline bucket_a,
         Fetcher ((loader ''s3://cfg/creds.json'')
            \<lparr>memo_config := Some (Inr \<lparr>v = 2, prefixes = [bucket_b]\<rparr>)\<rparr>)]\<rparr>,
      quiet_world\<lparr>reads := [\<lparr>href = ''s3://cfg/creds.json''\<rparr>]\<rparr>)"
proof -
  have c: "configs scenario = [Inline bucket_a, Fetcher (loader ''s3://cfg/creds.json'')]"
    by (simp add: examples)
  have "\<forall>s\<in>set (configs scenario). lookup \<lparr>href = ''s3://other/x''\<rparr> s = Inr None"
    unfolding c by (simp add: doc_creds answer_def) (simp add: examples evals)
  from no_match_is_none [OF this, of quiet_world] c doc_creds
  show ?thesis by (simp add: loader_def quiet_world_def)
qed

subsection \<open>The identity key\<close>

text \<open>
  C9 (the key derivation is injective on roleArn, externalId and roleSessionDuration, so
  that \<^verbatim>\<open>find\<close> never hands out a client constructed for another role) does not hold of
  line 140: the fields are joined by \<^verbatim>\<open>__\<close>, which may occur inside them. The two roles
  \<open>role_a\<close> and \<open>role_b\<close> differ in roleArn and in externalId and have one key; after a
  \<^verbatim>\<open>find\<close> under the first prefix, a \<^verbatim>\<open>find\<close> under the second prefix resolves to the
  second role and returns the client that was constructed for the first.
\<close>

theorem cacheKey_collision:
  "roleArn role_a \<noteq> roleArn role_b
   \<and> externalId role_a \<noteq> externalId role_b
   \<and> cacheKey role_a = cacheKey role_b
   \<and> fst (findCredentials \<lparr>href = ''s3://bucket-b/key''\<rparr> two_roles quiet_world)
       = Inr (Some (role_b\<lparr>type := Some ''s3''\<rparr>))
   \<and> (case find_fs \<lparr>href = ''s3://bucket-a/key''\<rparr> two_roles quiet_world of
        (r1, p1, w1) \<Rightarrow> (r1, fst (find_fs \<lparr>href = ''s3://bucket-b/key''\<rparr> p1 w1)))
       = (Inr (Some client_a), Inr (Some client_a))
   \<and> RoleArn client_a = roleArn role_a"
  by (simp add: find_fs_def findCredentials_def two_roles_def register_def new_provider_def
      quiet_world_def role_a_def role_b_def startsWith_def cacheKey_def createFileSystem_def
      createRoleSessionName_def Number_toString_def digits_0 client_a_def)

subsection \<open>The upload part size\<close>

text \<open>
  C10 (OneMegaByte is 2^20 = 1048576, and uploadPartSize is 10485760) does not hold of
  line 23 of \<^verbatim>\<open>s3.v3.ts\<close>: the constant is the product 1024 * 1204, which is 1232896, and
  the part size is 12328960.
\<close>

theorem OneMegaByte_value:
  "OneMegaByte = 1232896 \<and> OneMegaByte \<noteq> 2 ^ 20
   \<and> uploadPartSize = 12328960 \<and> uploadPartSize \<noteq> 10 * 1048576"
  by (simp add: OneMegaByte_def uploadPartSize_def)

end
